theory Spec2Isabelle
  imports Complex_Main
begin

section \<open>Traffic light detector node (tl\_detector.py)\<close>

text \<open>
  Shallow embedding of class \<open>TLDetector\<close>. Coordinates are Python floats in the
  source; they are idealised here as reals (no rounding, no NaN, no infinities except
  where the source's float division by zero is written out). Exceptions are values of
  type \<open>exn\<close>; a method that can raise returns \<open>exn + 'a\<close> together with the object state
  at the moment it returns or raises.
\<close>

subsection \<open>Data model\<close>

datatype exn = TypeError | UnboundLocalError | AttributeError | OverflowError | ValueError
  | CvBridgeError

text \<open>\<open>geometry_msgs/Point\<close>: the only part of a pose the node ever reads.\<close>

record Point =
  pos_x :: real
  pos_y :: real
  pos_z :: real

text \<open>\<open>styx_msgs/TrafficLight\<close>: \<open>light.pose.pose.position\<close> and the ground truth colour.\<close>

record Light =
  light_position :: Point
  light_state :: int

text \<open>
  The colour constants \<open>TrafficLight.RED\<close> and \<open>TrafficLight.UNKNOWN\<close> come from the message
  definition of \<open>styx_msgs\<close>, which is not part of the node's source file: they are a
  parameter of the model. \<open>styx_msgs\<close> below is the instance used for concrete runs.
\<close>

record TrafficLight =
  RED :: int
  UNKNOWN :: int

definition styx_msgs :: TrafficLight where
  "styx_msgs = \<lparr>RED = 0, UNKNOWN = 4\<rparr>"

text \<open>\<open>sensor_msgs/Image\<close> and the decoded frame (\<open>shape = (height, width, 3)\<close>).\<close>

record Image =
  height :: int
  width :: int
  data :: "nat list"

text \<open>\<open>self.config\<close>: the parsed YAML of \<open>/traffic_light_config\<close>.\<close>

record config =
  stop_line_positions :: "(real \<times> real) list"
  focal_length_x :: real
  focal_length_y :: real
  image_width :: int
  image_height :: int

type_synonym row4 = "real \<times> real \<times> real \<times> real"
type_synonym mat4 = "row4 \<times> row4 \<times> row4 \<times> row4"
type_synonym translation = "real \<times> real \<times> real"
type_synonym quaternion = "real \<times> real \<times> real \<times> real"

text \<open>
  The external collaborators of one pass: the transform listener (\<open>None\<close> when
  \<open>waitForTransform\<close>/\<open>lookupTransform\<close> raises one of the caught \<open>tf\<close> exceptions), the
  \<open>cv_bridge\<close> conversion and the classifier, called on the frame and the window
  \<open>(y0, y1, x0, x1)\<close> that the slice \<open>cv_image[y0:y1, x0:x1, :]\<close> is taken with.
\<close>

record env =
  lookupTransform :: "(translation \<times> quaternion) option"
  fromTranslationRotation :: "translation \<Rightarrow> quaternion \<Rightarrow> mat4"
  imgmsg_to_cv2 :: "Image option \<Rightarrow> exn + Image"
  get_classification :: "Image \<Rightarrow> int \<times> int \<times> int \<times> int \<Rightarrow> int"

text \<open>
  The attributes of a \<open>TLDetector\<close> object. \<open>has_image\<close> and \<open>prev_light_loc\<close> are not
  assigned by \<open>__init__\<close>: \<open>None\<close> is the attribute that does not exist yet. For
  \<open>prev_light_loc\<close>, \<open>Some ()\<close> is the attribute holding Python's \<open>None\<close>.
\<close>

record TLDetector =
  pose :: "Point option"
  waypoints :: "Point list option"
  camera_image :: "Image option"
  lights :: "Light list"
  config :: config
  has_image :: "bool option"
  prev_light_loc :: "unit option"
  state :: int
  last_state :: int
  last_wp :: int
  state_count :: int

definition STATE_COUNT_THRESHOLD :: int where
  "STATE_COUNT_THRESHOLD = 3"

subsection \<open>get\_closest\_waypoint\<close>

definition sq_dist :: "Point \<Rightarrow> Point \<Rightarrow> real" where
  "sq_dist wp p = (pos_x wp - pos_x p)\<^sup>2 + (pos_y wp - pos_y p)\<^sup>2"

text \<open>Python 2 orders \<open>None\<close> below every number: \<open>distance < None\<close> is \<open>False\<close>.\<close>

fun lt_none :: "real \<Rightarrow> real option \<Rightarrow> bool" where
  "lt_none d None = False"
| "lt_none d (Some m) = (d < m)"

text \<open>The \<open>for i, wp in enumerate(...)\<close> loop, on \<open>(min_distance, min_dist_ind)\<close>.\<close>

fun closest_scan :: "Point \<Rightarrow> (nat \<times> Point) list \<Rightarrow> real option \<times> int \<Rightarrow> real option \<times> int" where
  "closest_scan p [] acc = acc"
| "closest_scan p ((i, wp) # rest) (min_distance, min_dist_ind) =
     (let distance = sq_dist wp p in
      if lt_none distance min_distance \<or> min_distance = None
      then closest_scan p rest (Some distance, int i)
      else closest_scan p rest (min_distance, min_dist_ind))"

definition get_closest_waypoint :: "TLDetector \<Rightarrow> Point \<Rightarrow> int" where
  "get_closest_waypoint s p =
     (case waypoints s of
        None \<Rightarrow> -1
      | Some wps \<Rightarrow> snd (closest_scan p (enumerate 0 wps) (None, -1)))"

subsection \<open>project\_to\_image\_plane\<close>

text \<open>Python's \<open>int(f)\<close> on a finite float truncates towards zero.\<close>

definition py_int :: "real \<Rightarrow> int" where
  "py_int r = (if 0 \<le> r then \<lfloor>r\<rfloor> else \<lceil>r\<rceil>)"

text \<open>
  \<open>int(a / b)\<close> on numpy floats: division by zero does not raise, it gives an infinity
  (or NaN for \<open>0 / 0\<close>), and \<open>int\<close> of an infinity raises \<open>OverflowError\<close>, of a NaN
  \<open>ValueError\<close>.
\<close>

definition int_of_quotient :: "real \<Rightarrow> real \<Rightarrow> exn + int" where
  "int_of_quotient a b =
     (if b = 0 then (if a = 0 then Inl ValueError else Inl OverflowError)
      else Inr (py_int (a / b)))"

definition row_apply :: "row4 \<Rightarrow> Point \<Rightarrow> real" where
  "row_apply r pt =
     (case r of (a, b, c, d) \<Rightarrow> a * pos_x pt + b * pos_y pt + c * pos_z pt + d * 1)"

text \<open>\<open>(RT * point_3d)[:-1, :]\<close>: the first three rows of the product.\<close>

definition camera_point :: "mat4 \<Rightarrow> Point \<Rightarrow> real \<times> real \<times> real" where
  "camera_point RT pt =
     (case RT of (r0, r1, r2, r3) \<Rightarrow> (row_apply r0 pt, row_apply r1 pt, row_apply r2 pt))"

text \<open>
  When the lookup raises, the handler only logs: \<open>trans\<close> stays \<open>None\<close> and \<open>rot\<close> was never
  bound, so reading \<open>rot\<close> in the call of \<open>fromTranslationRotation\<close> raises
  \<open>UnboundLocalError\<close>. \<open>image_width / 2\<close> is Python 2 integer division.
\<close>

definition project_to_image_plane :: "env \<Rightarrow> TLDetector \<Rightarrow> Point \<Rightarrow> exn + int \<times> int" where
  "project_to_image_plane e s point_in_world =
     (let fx = focal_length_x (config s);
          fy = focal_length_y (config s);
          cx = real_of_int (image_width (config s) div 2);
          cy = real_of_int (image_height (config s) div 2)
      in case lookupTransform e of
           None \<Rightarrow> Inl UnboundLocalError
         | Some (trn, rot) \<Rightarrow>
             (case camera_point (fromTranslationRotation e trn rot) point_in_world of
                (Xc, Yc, Zc) \<Rightarrow>
                  (let p0 = fx * Xc + 0 * Yc + cx * Zc;
                       p1 = 0 * Xc + fy * Yc + cy * Zc;
                       p2 = 0 * Xc + 0 * Yc + 1 * Zc
                   in case int_of_quotient p0 p2 of
                        Inl err \<Rightarrow> Inl err
                      | Inr px \<Rightarrow>
                          (case int_of_quotient p1 p2 of
                             Inl err \<Rightarrow> Inl err
                           | Inr py \<Rightarrow> Inr (px, py)))))"

subsection \<open>get\_light\_state\<close>

text \<open>
  Without a frame the method returns \<open>False\<close>, which is the integer \<open>0\<close> for every
  comparison the caller makes (\<open>bool\<close> is a subclass of \<open>int\<close>). Reading \<open>self.has_image\<close>
  before any assignment raises \<open>AttributeError\<close>.
\<close>

definition get_light_state :: "env \<Rightarrow> TLDetector \<Rightarrow> Light \<Rightarrow> (exn + int) \<times> TLDetector" where
  "get_light_state e s light =
     (case has_image s of
        None \<Rightarrow> (Inl AttributeError, s)
      | Some False \<Rightarrow> (Inr 0, s\<lparr>prev_light_loc := Some ()\<rparr>)
      | Some True \<Rightarrow>
          (case imgmsg_to_cv2 e (camera_image s) of
             Inl err \<Rightarrow> (Inl err, s)
           | Inr cv_image \<Rightarrow>
               (case project_to_image_plane e s (light_position light) of
                  Inl err \<Rightarrow> (Inl err, s)
                | Inr (px, py) \<Rightarrow>
                    (let h = height cv_image; w = width cv_image;
                         x0 = max (px - 16) 0; x1 = min (px + 16) w;
                         y0 = max (py - 16) 0; y1 = min (py + 16) h
                     in (Inr (get_classification e cv_image (y0, y1, x0, x1)), s)))))"

subsection \<open>process\_traffic\_lights\<close>

text \<open>
  The inner loop over the stop lines, on \<open>(min_dist, stop_pose)\<close>. \<open>stop_pose\<close> is one object
  for the whole call: a light that updates nothing leaves the previous light's position in it.
\<close>

definition stop_sq_dist :: "real \<times> real \<Rightarrow> Point \<Rightarrow> real" where
  \<comment> \<open>\<open>np.sum((stop_pos_j - light_pos_i) ** 2)\<close> on the two-element arrays\<close>
  "stop_sq_dist stop_pos_j lp = (fst stop_pos_j - pos_x lp)\<^sup>2 + (snd stop_pos_j - pos_y lp)\<^sup>2"

fun stop_line_scan :: "Point \<Rightarrow> (real \<times> real) list \<Rightarrow> real \<times> Point \<Rightarrow> real \<times> Point" where
  "stop_line_scan lp [] acc = acc"
| "stop_line_scan lp (stop_pos_j # rest) (min_dist, stop_pose) =
     (let dist = stop_sq_dist stop_pos_j lp in
      if dist < min_dist
      then stop_line_scan lp rest
             (dist, stop_pose\<lparr>pos_x := fst stop_pos_j, pos_y := snd stop_pos_j\<rparr>)
      else stop_line_scan lp rest (min_dist, stop_pose))"

definition stop_pose_for :: "TLDetector \<Rightarrow> Light \<Rightarrow> Point \<Rightarrow> Point" where
  "stop_pose_for s light_i stop_pose =
     snd (stop_line_scan (light_position light_i) (stop_line_positions (config s))
            (1000000, stop_pose))"

text \<open>The loop over \<open>self.lights\<close>, on \<open>(stop_pose, light_wp, light)\<close>.\<close>

fun lights_scan ::
  "TLDetector \<Rightarrow> int \<Rightarrow> Light list \<Rightarrow> Point \<times> int option \<times> Light option
     \<Rightarrow> Point \<times> int option \<times> Light option" where
  "lights_scan s car_position [] acc = acc"
| "lights_scan s car_position (light_i # rest) (stop_pose, light_wp, light) =
     (let stop_pose' = stop_pose_for s light_i stop_pose;
          light_wp_i = get_closest_waypoint s stop_pose'
      in if light_wp_i \<ge> car_position \<and> light_wp_i \<noteq> -1
            \<and> (case light_wp of None \<Rightarrow> True | Some w \<Rightarrow> light_wp_i < w)
         then lights_scan s car_position rest (stop_pose', Some light_wp_i, Some light_i)
         else lights_scan s car_position rest (stop_pose', light_wp, light))"

text \<open>
  The index \<open>light_wp_i\<close> that the loop resolves for each light in turn, in the order of
  \<open>self.lights\<close>, starting from a given content of \<open>stop_pose\<close>.
\<close>

fun resolved_stop_indices :: "TLDetector \<Rightarrow> Light list \<Rightarrow> Point \<Rightarrow> int list" where
  "resolved_stop_indices s [] stop_pose = []"
| "resolved_stop_indices s (light_i # rest) stop_pose =
     (let stop_pose' = stop_pose_for s light_i stop_pose
      in get_closest_waypoint s stop_pose' # resolved_stop_indices s rest stop_pose')"

text \<open>\<open>Pose()\<close>: a fresh message has all coordinates \<open>0.0\<close>.\<close>

definition Pose0 :: Point where
  "Pose0 = \<lparr>pos_x = 0, pos_y = 0, pos_z = 0\<rparr>"

text \<open>
  With a pose, the gate \<open>light_wp - car_position < 100\<close> is evaluated whatever the loop
  found: when no light was selected \<open>light_wp\<close> is still \<open>None\<close> and the subtraction raises
  \<open>TypeError\<close>. The fall-through return assigns \<open>self.waypoints = None\<close> first.
\<close>

definition process_traffic_lights ::
  "TrafficLight \<Rightarrow> env \<Rightarrow> TLDetector \<Rightarrow> (exn + int \<times> int) \<times> TLDetector" where
  "process_traffic_lights c e s =
     (case pose s of
        None \<Rightarrow> (Inr (-1, UNKNOWN c), s\<lparr>waypoints := None\<rparr>)
      | Some p \<Rightarrow>
          (let car_position = get_closest_waypoint s p in
           case lights_scan s car_position (lights s) (Pose0, None, None) of
             (stop_pose, light_wp, light) \<Rightarrow>
               (case light_wp of
                  None \<Rightarrow> (Inl TypeError, s)
                | Some wp \<Rightarrow>
                    (let visible = (wp - car_position < 100) in
                     case light of
                       Some l \<Rightarrow>
                         (if visible
                          then (case get_light_state e s l of
                                  (Inl err, s') \<Rightarrow> (Inl err, s')
                                | (Inr st, s') \<Rightarrow> (Inr (wp, st), s'))
                          else (Inr (-1, UNKNOWN c), s\<lparr>waypoints := None\<rparr>))
                     | None \<Rightarrow> (Inr (-1, UNKNOWN c), s\<lparr>waypoints := None\<rparr>)))))"

subsection \<open>image\_cb\<close>

text \<open>
  The debounce of \<open>image_cb\<close> (the \<open>if\<close>/\<open>elif\<close>/\<open>else\<close> and the final increment), given
  the pair that \<open>process_traffic_lights\<close> returned. The first component is the list of
  integers published on \<open>/traffic_waypoint\<close> in this pass.
\<close>

definition debounce :: "TrafficLight \<Rightarrow> TLDetector \<Rightarrow> int \<Rightarrow> int \<Rightarrow> int list \<times> TLDetector" where
  "debounce c s light_wp st =
     (case (if state s \<noteq> st
            then ([], s\<lparr>state := st, state_count := 0\<rparr>)
            else if state_count s \<ge> STATE_COUNT_THRESHOLD
            then (let light_wp' = (if st = RED c then light_wp else -1)
                  in ([light_wp'], s\<lparr>last_state := state s, last_wp := light_wp'\<rparr>))
            else ([last_wp s], s)) of
        (out, s') \<Rightarrow> (out, s'\<lparr>state_count := state_count s' + 1\<rparr>))"

definition image_cb ::
  "TrafficLight \<Rightarrow> env \<Rightarrow> TLDetector \<Rightarrow> Image \<Rightarrow> (exn + int list) \<times> TLDetector" where
  "image_cb c e s msg =
     (let s1 = s\<lparr>has_image := Some True, camera_image := Some msg\<rparr> in
      case process_traffic_lights c e s1 of
        (Inl err, s2) \<Rightarrow> (Inl err, s2)
      | (Inr (light_wp, st), s2) \<Rightarrow>
          (case debounce c s2 light_wp st of (out, s3) \<Rightarrow> (Inr out, s3)))"

text \<open>Feeding the debounce a sequence of \<open>(light_wp, state)\<close> pairs, pass after pass.\<close>

fun feed :: "TrafficLight \<Rightarrow> TLDetector \<Rightarrow> (int \<times> int) list \<Rightarrow> int list \<times> TLDetector" where
  "feed c s [] = ([], s)"
| "feed c s ((light_wp, st) # rest) =
     (case debounce c s light_wp st of
        (out, s') \<Rightarrow> (case feed c s' rest of (outs, s'') \<Rightarrow> (out @ outs, s'')))"

subsection \<open>Concrete inputs\<close>

text \<open>The attributes as \<open>__init__\<close> leaves them, for a given configuration.\<close>

definition init_detector :: "TrafficLight \<Rightarrow> config \<Rightarrow> TLDetector" where
  "init_detector c cfg =
     \<lparr>pose = None, waypoints = None, camera_image = None, lights = [], config = cfg,
      has_image = None, prev_light_loc = None,
      state = UNKNOWN c, last_state = UNKNOWN c, last_wp = -1, state_count = 0\<rparr>"

definition pt :: "real \<Rightarrow> real \<Rightarrow> real \<Rightarrow> Point" where
  "pt a b d = \<lparr>pos_x = a, pos_y = b, pos_z = d\<rparr>"

text \<open>
  A small scene: six waypoints one unit apart along the x axis, the vehicle at \<open>x = 1\<close>,
  one light at \<open>x = 4\<close> with its stop line at \<open>x = 3\<close>.
\<close>

definition demo_config :: config where
  "demo_config =
     \<lparr>stop_line_positions = [(3, 0)], focal_length_x = 2, focal_length_y = 2,
      image_width = 800, image_height = 600\<rparr>"

definition demo_detector :: TLDetector where
  "demo_detector =
     (init_detector styx_msgs demo_config)
       \<lparr>pose := Some (pt 1 0 0),
        waypoints := Some [pt 0 0 0, pt 1 0 0, pt 2 0 0, pt 3 0 0, pt 4 0 0, pt 5 0 0],
        lights := [\<lparr>light_position = pt 4 0 5, light_state = 0\<rparr>]\<rparr>"

text \<open>
  Test doubles for the collaborators: a transform with the identity rotation, a bridge
  that passes the frame on, a classifier that always answers \<open>0\<close> (red).
\<close>

definition demo_env :: env where
  "demo_env =
     \<lparr>lookupTransform = Some ((0, 0, 0), (0, 0, 0, 1)),
      fromTranslationRotation =
        (\<lambda>(tx, ty, tz) q. ((1, 0, 0, tx), (0, 1, 0, ty), (0, 0, 1, tz), (0, 0, 0, 1))),
      imgmsg_to_cv2 = (\<lambda>m. case m of None \<Rightarrow> Inl AttributeError | Some i \<Rightarrow> Inr i),
      get_classification = (\<lambda>img win. 0)\<rparr>"

definition demo_image :: Image where
  "demo_image = \<lparr>height = 600, width = 800, data = []\<rparr>"

text \<open>
  A scene with two lights, the farther one first in \<open>self.lights\<close>: stop lines at
  \<open>x = 2\<close> and \<open>x = 4\<close>, a light at \<open>(5, 0)\<close> and a light at \<open>(2, 1)\<close>, a frame already
  received. The classifier double answers \<open>0\<close> (red) for the window of the near light,
  whose left edge is at pixel 384, and \<open>2\<close> (green) for any other window.
\<close>

definition two_detector :: TLDetector where
  "two_detector =
     demo_detector
       \<lparr>config := demo_config\<lparr>stop_line_positions := [(2, 0), (4, 0)]\<rparr>,
        lights := [\<lparr>light_position = pt 5 0 5, light_state = 2\<rparr>,
                   \<lparr>light_position = pt 2 1 5, light_state = 0\<rparr>],
        has_image := Some True,
        camera_image := Some demo_image\<rparr>"

definition window_env :: env where
  "window_env =
     demo_env\<lparr>get_classification :=
                (\<lambda>img win. case win of (y0, y1, x0, x1) \<Rightarrow> if x0 = 384 then 0 else 2)\<rparr>"

section \<open>Nearest waypoint\<close>

text \<open>
  The scan started with a minimum \<open>m\<close> already recorded for index \<open>k\<close>: either no later
  waypoint is strictly closer, or the result is the first waypoint attaining the least
  distance, which is below \<open>m\<close>.
\<close>

lemma closest_scan_inv:
  "\<exists>mo r. closest_scan p (enumerate n ws) (Some m, k) = (mo, r) \<and>
     ((r = k \<and> mo = Some m \<and> (\<forall>i<length ws. m \<le> sq_dist (ws ! i) p))
      \<or> (\<exists>j<length ws. r = int (n + j) \<and> mo = Some (sq_dist (ws ! j) p)
            \<and> sq_dist (ws ! j) p < m
            \<and> (\<forall>i<length ws. sq_dist (ws ! j) p \<le> sq_dist (ws ! i) p)
            \<and> (\<forall>i<j. sq_dist (ws ! j) p < sq_dist (ws ! i) p)))"
proof (induction ws arbitrary: n m k)
  case Nil
  then show ?case by simp
next
  case (Cons w ws)
  show ?case
  proof (cases "sq_dist w p < m")
    case True
    from Cons.IH[of "Suc n" "sq_dist w p" "int n"]
    obtain mo r where eq: "closest_scan p (enumerate (Suc n) ws) (Some (sq_dist w p), int n) = (mo, r)"
      and alt: "(r = int n \<and> mo = Some (sq_dist w p) \<and> (\<forall>i<length ws. sq_dist w p \<le> sq_dist (ws ! i) p))
      \<or> (\<exists>j<length ws. r = int (Suc n + j) \<and> mo = Some (sq_dist (ws ! j) p)
            \<and> sq_dist (ws ! j) p < sq_dist w p
            \<and> (\<forall>i<length ws. sq_dist (ws ! j) p \<le> sq_dist (ws ! i) p)
            \<and> (\<forall>i<j. sq_dist (ws ! j) p < sq_dist (ws ! i) p))"
      by blast
    have step: "closest_scan p (enumerate n (w # ws)) (Some m, k) = (mo, r)"
      using True eq by simp
    from alt show ?thesis
    proof
      assume a: "r = int n \<and> mo = Some (sq_dist w p) \<and> (\<forall>i<length ws. sq_dist w p \<le> sq_dist (ws ! i) p)"
      have "\<forall>i<length (w # ws). sq_dist ((w # ws) ! 0) p \<le> sq_dist ((w # ws) ! i) p"
        using a by (auto simp: nth_Cons split: nat.splits)
      with a True step show ?thesis
        by (intro exI[of _ mo] exI[of _ r]) (auto intro!: exI[of _ 0])
    next
      assume "\<exists>j<length ws. r = int (Suc n + j) \<and> mo = Some (sq_dist (ws ! j) p)
            \<and> sq_dist (ws ! j) p < sq_dist w p
            \<and> (\<forall>i<length ws. sq_dist (ws ! j) p \<le> sq_dist (ws ! i) p)
            \<and> (\<forall>i<j. sq_dist (ws ! j) p < sq_dist (ws ! i) p)"
      then obtain j where j: "j < length ws" "r = int (Suc n + j)" "mo = Some (sq_dist (ws ! j) p)"
        "sq_dist (ws ! j) p < sq_dist w p"
        "\<forall>i<length ws. sq_dist (ws ! j) p \<le> sq_dist (ws ! i) p"
        "\<forall>i<j. sq_dist (ws ! j) p < sq_dist (ws ! i) p" by blast
      have 1: "\<forall>i<length (w # ws). sq_dist ((w # ws) ! Suc j) p \<le> sq_dist ((w # ws) ! i) p"
        using j by (auto simp: nth_Cons split: nat.splits)
      have 2: "\<forall>i<Suc j. sq_dist ((w # ws) ! Suc j) p < sq_dist ((w # ws) ! i) p"
        using j by (auto simp: nth_Cons split: nat.splits)
      have 3: "sq_dist ((w # ws) ! Suc j) p < m" using j True by simp
      show ?thesis
        using step j(1,2,3) 1 2 3
        by (intro exI[of _ mo] exI[of _ r]) (auto intro!: exI[of _ "Suc j"])
    qed
  next
    case False
    from Cons.IH[of "Suc n" m k]
    obtain mo r where eq: "closest_scan p (enumerate (Suc n) ws) (Some m, k) = (mo, r)"
      and alt: "(r = k \<and> mo = Some m \<and> (\<forall>i<length ws. m \<le> sq_dist (ws ! i) p))
      \<or> (\<exists>j<length ws. r = int (Suc n + j) \<and> mo = Some (sq_dist (ws ! j) p)
            \<and> sq_dist (ws ! j) p < m
            \<and> (\<forall>i<length ws. sq_dist (ws ! j) p \<le> sq_dist (ws ! i) p)
            \<and> (\<forall>i<j. sq_dist (ws ! j) p < sq_dist (ws ! i) p))"
      by blast
    have step: "closest_scan p (enumerate n (w # ws)) (Some m, k) = (mo, r)"
      using False eq by simp
    from alt show ?thesis
    proof
      assume a: "r = k \<and> mo = Some m \<and> (\<forall>i<length ws. m \<le> sq_dist (ws ! i) p)"
      have "\<forall>i<length (w # ws). m \<le> sq_dist ((w # ws) ! i) p"
        using a False by (auto simp: nth_Cons split: nat.splits)
      with a step show ?thesis by blast
    next
      assume "\<exists>j<length ws. r = int (Suc n + j) \<and> mo = Some (sq_dist (ws ! j) p)
            \<and> sq_dist (ws ! j) p < m
            \<and> (\<forall>i<length ws. sq_dist (ws ! j) p \<le> sq_dist (ws ! i) p)
            \<and> (\<forall>i<j. sq_dist (ws ! j) p < sq_dist (ws ! i) p)"
      then obtain j where j: "j < length ws" "r = int (Suc n + j)" "mo = Some (sq_dist (ws ! j) p)"
        "sq_dist (ws ! j) p < m"
        "\<forall>i<length ws. sq_dist (ws ! j) p \<le> sq_dist (ws ! i) p"
        "\<forall>i<j. sq_dist (ws ! j) p < sq_dist (ws ! i) p" by blast
      have 1: "\<forall>i<length (w # ws). sq_dist ((w # ws) ! Suc j) p \<le> sq_dist ((w # ws) ! i) p"
        using j False by (auto simp: nth_Cons split: nat.splits)
      have 2: "\<forall>i<Suc j. sq_dist ((w # ws) ! Suc j) p < sq_dist ((w # ws) ! i) p"
        using j False by (auto simp: nth_Cons split: nat.splits)
      show ?thesis
        using step j(1,2,3,4) 1 2
        by (intro exI[of _ mo] exI[of _ r]) (auto intro!: exI[of _ "Suc j"])
    qed
  qed
qed

lemma closest_scan_nonempty:
  assumes "wps \<noteq> []"
  shows "\<exists>j<length wps. snd (closest_scan p (enumerate 0 wps) (None, -1)) = int j
            \<and> (\<forall>i<length wps. sq_dist (wps ! j) p \<le> sq_dist (wps ! i) p)
            \<and> (\<forall>i<j. sq_dist (wps ! j) p < sq_dist (wps ! i) p)"
proof -
  from assms obtain w ws where wps: "wps = w # ws" by (cases wps) auto
  have first: "closest_scan p (enumerate 0 wps) (None, -1)
                 = closest_scan p (enumerate (Suc 0) ws) (Some (sq_dist w p), 0)"
    by (simp add: wps)
  from closest_scan_inv[of p "Suc 0" ws "sq_dist w p" 0]
  obtain mo r where eq: "closest_scan p (enumerate (Suc 0) ws) (Some (sq_dist w p), 0) = (mo, r)"
      and alt: "(r = 0 \<and> mo = Some (sq_dist w p) \<and> (\<forall>i<length ws. sq_dist w p \<le> sq_dist (ws ! i) p))
      \<or> (\<exists>j<length ws. r = int (Suc 0 + j) \<and> mo = Some (sq_dist (ws ! j) p)
            \<and> sq_dist (ws ! j) p < sq_dist w p
            \<and> (\<forall>i<length ws. sq_dist (ws ! j) p \<le> sq_dist (ws ! i) p)
            \<and> (\<forall>i<j. sq_dist (ws ! j) p < sq_dist (ws ! i) p))"
    by blast
  from alt show ?thesis
  proof
    assume a: "r = 0 \<and> mo = Some (sq_dist w p) \<and> (\<forall>i<length ws. sq_dist w p \<le> sq_dist (ws ! i) p)"
    have "\<forall>i<length wps. sq_dist (wps ! 0) p \<le> sq_dist (wps ! i) p"
      using a by (auto simp: wps nth_Cons split: nat.splits)
    then show ?thesis using a first eq wps by (intro exI[of _ 0]) auto
  next
    assume "\<exists>j<length ws. r = int (Suc 0 + j) \<and> mo = Some (sq_dist (ws ! j) p)
            \<and> sq_dist (ws ! j) p < sq_dist w p
            \<and> (\<forall>i<length ws. sq_dist (ws ! j) p \<le> sq_dist (ws ! i) p)
            \<and> (\<forall>i<j. sq_dist (ws ! j) p < sq_dist (ws ! i) p)"
    then obtain j where j: "j < length ws" "r = int (Suc 0 + j)"
        "sq_dist (ws ! j) p < sq_dist w p"
        "\<forall>i<length ws. sq_dist (ws ! j) p \<le> sq_dist (ws ! i) p"
        "\<forall>i<j. sq_dist (ws ! j) p < sq_dist (ws ! i) p" by blast
    have 1: "\<forall>i<length wps. sq_dist (wps ! Suc j) p \<le> sq_dist (wps ! i) p"
      using j by (auto simp: wps nth_Cons split: nat.splits)
    have 2: "\<forall>i<Suc j. sq_dist (wps ! Suc j) p < sq_dist (wps ! i) p"
      using j by (auto simp: wps nth_Cons split: nat.splits)
    show ?thesis using j(1,2) 1 2 first eq wps by (intro exI[of _ "Suc j"]) auto
  qed
qed

text \<open>
  C5: \<open>get_closest_waypoint\<close> returns \<open>-1\<close> exactly when the path is unset or has no
  waypoints; otherwise it returns an index of the path whose waypoint has the least
  squared distance (in x and y) to the query point, and it is the first such index:
  every earlier waypoint is strictly farther.
\<close>

theorem get_closest_waypoint_first_minimum:
  "(get_closest_waypoint s p = -1 \<longleftrightarrow> waypoints s = None \<or> waypoints s = Some [])
   \<and> (\<forall>wps. waypoints s = Some wps \<and> wps \<noteq> [] \<longrightarrow>
         (\<exists>j<length wps. get_closest_waypoint s p = int j
            \<and> (\<forall>i<length wps. sq_dist (wps ! j) p \<le> sq_dist (wps ! i) p)
            \<and> (\<forall>i<j. sq_dist (wps ! j) p < sq_dist (wps ! i) p)))"
proof -
  have nonempty: "\<exists>j<length wps. get_closest_waypoint s p = int j
            \<and> (\<forall>i<length wps. sq_dist (wps ! j) p \<le> sq_dist (wps ! i) p)
            \<and> (\<forall>i<j. sq_dist (wps ! j) p < sq_dist (wps ! i) p)"
    if "waypoints s = Some wps" "wps \<noteq> []" for wps
    using closest_scan_nonempty[OF that(2), of p] that(1)
    by (simp add: get_closest_waypoint_def)
  have sentinel: "get_closest_waypoint s p = -1 \<longleftrightarrow> waypoints s = None \<or> waypoints s = Some []"
  proof (cases "waypoints s")
    case None
    then show ?thesis by (simp add: get_closest_waypoint_def)
  next
    case (Some wps)
    show ?thesis
    proof (cases "wps = []")
      case True
      with Some show ?thesis by (simp add: get_closest_waypoint_def)
    next
      case False
      from nonempty[OF Some False] obtain j where "get_closest_waypoint s p = int j" by blast
      with Some False show ?thesis by simp
    qed
  qed
  from nonempty sentinel show ?thesis by blast
qed

theorem get_closest_waypoint_first_minimum_witness:
  "waypoints demo_detector = Some [pt 0 0 0, pt 1 0 0, pt 2 0 0, pt 3 0 0, pt 4 0 0, pt 5 0 0]
   \<and> get_closest_waypoint demo_detector (pt 3 0 0) \<noteq> -1
   \<and> (\<exists>j<6. get_closest_waypoint demo_detector (pt 3 0 0) = int j
         \<and> (\<forall>i<6. sq_dist ([pt 0 0 0, pt 1 0 0, pt 2 0 0, pt 3 0 0, pt 4 0 0, pt 5 0 0] ! j) (pt 3 0 0)
                   \<le> sq_dist ([pt 0 0 0, pt 1 0 0, pt 2 0 0, pt 3 0 0, pt 4 0 0, pt 5 0 0] ! i) (pt 3 0 0)))"
proof -
  have w: "waypoints demo_detector
             = Some [pt 0 0 0, pt 1 0 0, pt 2 0 0, pt 3 0 0, pt 4 0 0, pt 5 0 0]"
    by (simp add: demo_detector_def init_detector_def)
  show ?thesis
    using get_closest_waypoint_first_minimum[of demo_detector "pt 3 0 0"] w
    by auto
qed

lemmas demo_defs = demo_detector_def demo_config_def demo_env_def demo_image_def
  init_detector_def styx_msgs_def pt_def

lemmas run_defs = get_closest_waypoint_def sq_dist_def stop_sq_dist_def stop_pose_for_def
  Pose0_def process_traffic_lights_def get_light_state_def project_to_image_plane_def
  camera_point_def row_apply_def int_of_quotient_def py_int_def
  image_cb_def debounce_def STATE_COUNT_THRESHOLD_def

section \<open>Debounce\<close>

text \<open>The three branches of the debounce, one equation each.\<close>

lemma debounce_change:
  "state s \<noteq> st \<Longrightarrow> debounce c s w st = ([], s\<lparr>state := st, state_count := 1\<rparr>)"
  by (simp add: debounce_def)

lemma debounce_below:
  "state s = st \<Longrightarrow> state_count s < STATE_COUNT_THRESHOLD \<Longrightarrow>
     debounce c s w st = ([last_wp s], s\<lparr>state_count := state_count s + 1\<rparr>)"
  by (simp add: debounce_def)

lemma debounce_promote:
  "state s = st \<Longrightarrow> state_count s \<ge> STATE_COUNT_THRESHOLD \<Longrightarrow>
     debounce c s w st =
       ([if st = RED c then w else -1],
        s\<lparr>last_state := st, last_wp := (if st = RED c then w else -1),
          state_count := state_count s + 1\<rparr>)"
  by (simp add: debounce_def Let_def)

text \<open>
  C1 (as the code has it): from any state whose observed raw colour is not red, three
  consecutive red readings (three is \<open>STATE_COUNT_THRESHOLD\<close>) leave the remembered
  published value \<open>last_wp\<close> as it was, and every value published in those passes is that
  prior value; the next, fourth consecutive red reading publishes its stop index and
  remembers it. A reading that differs from an observed red restarts the run: the pass
  sets the count to zero and ends with the count at one, the new colour observed and
  \<open>last_wp\<close> untouched.
\<close>

theorem debounce_red_run:
  assumes "state s \<noteq> RED c" and "length ws = nat STATE_COUNT_THRESHOLD"
  shows "(case feed c s (map (\<lambda>w. (w, RED c)) ws) of
            (outs, s3) \<Rightarrow>
              last_wp s3 = last_wp s \<and> (\<forall>v\<in>set outs. v = last_wp s)
              \<and> fst (debounce c s3 w4 (RED c)) = [w4]
              \<and> last_wp (snd (debounce c s3 w4 (RED c))) = w4)
         \<and> (\<forall>s' st w. state s' = RED c \<and> st \<noteq> RED c \<longrightarrow>
               state_count (snd (debounce c s' w st)) = 1
               \<and> state (snd (debounce c s' w st)) = st
               \<and> last_wp (snd (debounce c s' w st)) = last_wp s')"
proof -
  from assms(2) obtain a b d where ws: "ws = [a, b, d]"
    by (auto simp: STATE_COUNT_THRESHOLD_def numeral_3_eq_3 length_Suc_conv)
  let ?s1 = "s\<lparr>state := RED c, state_count := 1\<rparr>"
  let ?s2 = "s\<lparr>state := RED c, state_count := 2\<rparr>"
  let ?s3 = "s\<lparr>state := RED c, state_count := 3\<rparr>"
  have 1: "debounce c s a (RED c) = ([], ?s1)"
    using assms(1) by (simp add: debounce_change)
  have 2: "debounce c ?s1 b (RED c) = ([last_wp s], ?s2)"
    by (simp add: debounce_below STATE_COUNT_THRESHOLD_def)
  have 3: "debounce c ?s2 d (RED c) = ([last_wp s], ?s3)"
    by (simp add: debounce_below STATE_COUNT_THRESHOLD_def)
  have run: "feed c s (map (\<lambda>w. (w, RED c)) ws) = ([last_wp s, last_wp s], ?s3)"
    by (simp add: ws 1 2 3)
  have 4: "debounce c ?s3 w4 (RED c)
             = ([w4], ?s3\<lparr>last_state := RED c, last_wp := w4, state_count := 4\<rparr>)"
    by (simp add: debounce_promote STATE_COUNT_THRESHOLD_def)
  have reset: "state_count (snd (debounce c s' w st)) = 1
               \<and> state (snd (debounce c s' w st)) = st
               \<and> last_wp (snd (debounce c s' w st)) = last_wp s'"
    if "state s' = RED c" "st \<noteq> RED c" for s' st w
    using that by (simp add: debounce_change)
  show ?thesis using run 4 reset by simp
qed

theorem debounce_red_run_witness:
  "state (init_detector styx_msgs demo_config) \<noteq> RED styx_msgs
   \<and> fst (feed styx_msgs (init_detector styx_msgs demo_config) [(3, 0), (3, 0), (3, 0)]) = [-1, -1]
   \<and> last_wp (snd (feed styx_msgs (init_detector styx_msgs demo_config) [(3, 0), (3, 0), (3, 0)])) = -1
   \<and> fst (debounce styx_msgs
             (snd (feed styx_msgs (init_detector styx_msgs demo_config) [(3, 0), (3, 0), (3, 0)]))
             3 0) = [3]
   \<and> state ((init_detector styx_msgs demo_config)\<lparr>state := 0, state_count := 2\<rparr>) = RED styx_msgs
   \<and> state_count (snd (debounce styx_msgs
          ((init_detector styx_msgs demo_config)\<lparr>state := 0, state_count := 2\<rparr>) (-1) 4)) = 1"
proof -
  have h1: "state (init_detector styx_msgs demo_config) \<noteq> RED styx_msgs"
    by (simp add: init_detector_def styx_msgs_def)
  have h2: "length [3, 3, 3 :: int] = nat STATE_COUNT_THRESHOLD"
    by (simp add: STATE_COUNT_THRESHOLD_def)
  have r: "RED styx_msgs = 0" by (simp add: styx_msgs_def)
  have f: "fst (feed styx_msgs (init_detector styx_msgs demo_config) [(3, 0), (3, 0), (3, 0)]) = [-1, -1]"
    by (simp add: debounce_def init_detector_def styx_msgs_def STATE_COUNT_THRESHOLD_def)
  have h3: "state ((init_detector styx_msgs demo_config)\<lparr>state := 0, state_count := 2\<rparr>) = RED styx_msgs
            \<and> (4::int) \<noteq> RED styx_msgs"
    by (simp add: r)
  show ?thesis
    using debounce_red_run[OF h1 h2, of 3] h1 f h3
    by (simp add: r split: prod.splits)
qed

text \<open>
  From the initial state, the third consecutive red reading with stop index 148 still
  publishes \<open>-1\<close> and leaves \<open>last_wp = -1\<close>; and after two reds, one reading of colour 4
  ends its pass with the count at 1, not 0.
\<close>

theorem debounce_third_red_counterexample:
  "fst (feed styx_msgs (init_detector styx_msgs demo_config) [(148, 0), (148, 0), (148, 0)]) = [-1, -1]
   \<and> last_wp (snd (feed styx_msgs (init_detector styx_msgs demo_config)
                      [(148, 0), (148, 0), (148, 0)])) = -1
   \<and> state_count (snd (debounce styx_msgs
         (snd (feed styx_msgs (init_detector styx_msgs demo_config) [(148, 0), (148, 0)])) (-1) 4)) = 1"
  by (simp add: debounce_def init_detector_def styx_msgs_def STATE_COUNT_THRESHOLD_def)

text \<open>
  C4: the first image of the scene is classified red while the observed colour is still
  \<open>UNKNOWN\<close>: the pass takes the branch that resets the count and publishes nothing.
\<close>

theorem state_change_pass_publishes_nothing:
  "image_cb styx_msgs demo_env demo_detector demo_image
     = (Inr [], demo_detector\<lparr>has_image := Some True, camera_image := Some demo_image,
                              state := 0, state_count := 1\<rparr>)"
  by (simp add: demo_defs run_defs)

section \<open>Light association\<close>

lemma length_resolved_stop_indices:
  "length (resolved_stop_indices s ls sp) = length ls"
  by (induction ls arbitrary: sp) (simp_all add: Let_def)

text \<open>
  What the loop over the lights keeps. Either the selection is the one it started with,
  or it is the light at some position \<open>k\<close> together with that light's resolved index,
  which is at or ahead of the vehicle, not \<open>-1\<close>, strictly below the index the loop
  started with and strictly below every eligible resolved index of an earlier light.
  The selected index is at most every eligible resolved index, and at most the index
  the loop started with.
\<close>

lemma lights_scan_inv:
  "lights_scan s car ls (sp, lw, l) = (sp', lw', l') \<Longrightarrow>
     ((lw' = lw \<and> l' = l)
        \<or> (\<exists>k<length ls.
              lw' = Some (resolved_stop_indices s ls sp ! k) \<and> l' = Some (ls ! k)
              \<and> car \<le> resolved_stop_indices s ls sp ! k
              \<and> resolved_stop_indices s ls sp ! k \<noteq> -1
              \<and> (\<forall>j<k. car \<le> resolved_stop_indices s ls sp ! j
                          \<and> resolved_stop_indices s ls sp ! j \<noteq> -1
                        \<longrightarrow> resolved_stop_indices s ls sp ! k < resolved_stop_indices s ls sp ! j)
              \<and> (\<forall>w. lw = Some w \<longrightarrow> resolved_stop_indices s ls sp ! k < w)))
     \<and> (\<forall>j<length ls. car \<le> resolved_stop_indices s ls sp ! j
                          \<and> resolved_stop_indices s ls sp ! j \<noteq> -1
            \<longrightarrow> (\<exists>w. lw' = Some w \<and> w \<le> resolved_stop_indices s ls sp ! j))
     \<and> (\<forall>w. lw = Some w \<longrightarrow> (\<exists>w'. lw' = Some w' \<and> w' \<le> w))"
proof (induction ls arbitrary: sp lw l)
  case Nil
  then show ?case by simp
next
  case (Cons a ls)
  let ?sp1 = "stop_pose_for s a sp"
  let ?i0 = "get_closest_waypoint s ?sp1"
  let ?R = "resolved_stop_indices s ls ?sp1"
  let ?C = "?i0 \<ge> car \<and> ?i0 \<noteq> -1 \<and> (case lw of None \<Rightarrow> True | Some w \<Rightarrow> ?i0 < w)"
  let ?elig = "\<lambda>i. car \<le> i \<and> i \<noteq> -1"
  have R: "resolved_stop_indices s (a # ls) sp = ?i0 # ?R" by (simp add: Let_def)
  have step: "lights_scan s car (a # ls) (sp, lw, l) =
      (if ?C then lights_scan s car ls (?sp1, Some ?i0, Some a)
       else lights_scan s car ls (?sp1, lw, l))"
    by (simp add: Let_def)
  show ?case
  proof (cases ?C)
    case True
    have "lights_scan s car ls (?sp1, Some ?i0, Some a) = (sp', lw', l')"
      using Cons.prems unfolding step if_P[OF True] .
    from Cons.IH[OF this]
    have ih1: "(lw' = Some ?i0 \<and> l' = Some a)
        \<or> (\<exists>k<length ls. lw' = Some (?R ! k) \<and> l' = Some (ls ! k) \<and> ?elig (?R ! k)
              \<and> (\<forall>j<k. ?elig (?R ! j) \<longrightarrow> ?R ! k < ?R ! j) \<and> ?R ! k < ?i0)"
      and ih2: "\<forall>j<length ls. ?elig (?R ! j) \<longrightarrow> (\<exists>w. lw' = Some w \<and> w \<le> ?R ! j)"
      and ih3: "\<exists>w'. lw' = Some w' \<and> w' \<le> ?i0"
      by auto
    have below: "\<forall>w. lw = Some w \<longrightarrow> ?i0 < w"
      using True by (auto split: option.splits)
    have 1: "\<exists>k<length (a # ls). lw' = Some ((?i0 # ?R) ! k) \<and> l' = Some ((a # ls) ! k)
              \<and> ?elig ((?i0 # ?R) ! k)
              \<and> (\<forall>j<k. ?elig ((?i0 # ?R) ! j) \<longrightarrow> (?i0 # ?R) ! k < (?i0 # ?R) ! j)
              \<and> (\<forall>w. lw = Some w \<longrightarrow> (?i0 # ?R) ! k < w)"
      using ih1
    proof
      assume "lw' = Some ?i0 \<and> l' = Some a"
      with True below show ?thesis by (intro exI[of _ 0]) simp
    next
      assume "\<exists>k<length ls. lw' = Some (?R ! k) \<and> l' = Some (ls ! k) \<and> ?elig (?R ! k)
              \<and> (\<forall>j<k. ?elig (?R ! j) \<longrightarrow> ?R ! k < ?R ! j) \<and> ?R ! k < ?i0"
      then obtain k where k: "k < length ls" "lw' = Some (?R ! k)" "l' = Some (ls ! k)"
        "?elig (?R ! k)" "\<forall>j<k. ?elig (?R ! j) \<longrightarrow> ?R ! k < ?R ! j" "?R ! k < ?i0"
        by blast
      have earlier: "\<forall>j<Suc k. ?elig ((?i0 # ?R) ! j) \<longrightarrow> ?R ! k < (?i0 # ?R) ! j"
        using k(5,6) by (auto simp: nth_Cons split: nat.splits)
      have "\<forall>w. lw = Some w \<longrightarrow> ?R ! k < w" using below k(6) by fastforce
      with k earlier show ?thesis by (intro exI[of _ "Suc k"]) simp
    qed
    have 2: "\<forall>j<length (a # ls). ?elig ((?i0 # ?R) ! j)
               \<longrightarrow> (\<exists>w. lw' = Some w \<and> w \<le> (?i0 # ?R) ! j)"
      using ih2 ih3 by (auto simp: nth_Cons split: nat.splits)
    have 3: "\<forall>w. lw = Some w \<longrightarrow> (\<exists>w'. lw' = Some w' \<and> w' \<le> w)"
      using ih3 below by fastforce
    show ?thesis unfolding R using 1 2 3 by blast
  next
    case False
    have "lights_scan s car ls (?sp1, lw, l) = (sp', lw', l')"
      using Cons.prems unfolding step if_not_P[OF False] .
    from Cons.IH[OF this]
    have ih1: "(lw' = lw \<and> l' = l)
        \<or> (\<exists>k<length ls. lw' = Some (?R ! k) \<and> l' = Some (ls ! k) \<and> ?elig (?R ! k)
              \<and> (\<forall>j<k. ?elig (?R ! j) \<longrightarrow> ?R ! k < ?R ! j)
              \<and> (\<forall>w. lw = Some w \<longrightarrow> ?R ! k < w))"
      and ih2: "\<forall>j<length ls. ?elig (?R ! j) \<longrightarrow> (\<exists>w. lw' = Some w \<and> w \<le> ?R ! j)"
      and ih3: "\<forall>w. lw = Some w \<longrightarrow> (\<exists>w'. lw' = Some w' \<and> w' \<le> w)"
      by auto
    have held: "\<exists>w. lw = Some w \<and> w \<le> ?i0" if "?elig ?i0"
      using False that by (cases lw) auto
    have 1: "(lw' = lw \<and> l' = l)
        \<or> (\<exists>k<length (a # ls). lw' = Some ((?i0 # ?R) ! k) \<and> l' = Some ((a # ls) ! k)
              \<and> ?elig ((?i0 # ?R) ! k)
              \<and> (\<forall>j<k. ?elig ((?i0 # ?R) ! j) \<longrightarrow> (?i0 # ?R) ! k < (?i0 # ?R) ! j)
              \<and> (\<forall>w. lw = Some w \<longrightarrow> (?i0 # ?R) ! k < w))"
      using ih1
    proof
      assume "lw' = lw \<and> l' = l"
      then show ?thesis by simp
    next
      assume "\<exists>k<length ls. lw' = Some (?R ! k) \<and> l' = Some (ls ! k) \<and> ?elig (?R ! k)
              \<and> (\<forall>j<k. ?elig (?R ! j) \<longrightarrow> ?R ! k < ?R ! j)
              \<and> (\<forall>w. lw = Some w \<longrightarrow> ?R ! k < w)"
      then obtain k where k: "k < length ls" "lw' = Some (?R ! k)" "l' = Some (ls ! k)"
        "?elig (?R ! k)" "\<forall>j<k. ?elig (?R ! j) \<longrightarrow> ?R ! k < ?R ! j"
        "\<forall>w. lw = Some w \<longrightarrow> ?R ! k < w"
        by blast
      have first: "?R ! k < ?i0" if "?elig ?i0"
      proof -
        from held[OF that] obtain w where "lw = Some w" "w \<le> ?i0" by blast
        with k(6) show ?thesis by fastforce
      qed
      have earlier: "\<forall>j<Suc k. ?elig ((?i0 # ?R) ! j) \<longrightarrow> ?R ! k < (?i0 # ?R) ! j"
        using k(5) first by (auto simp: nth_Cons split: nat.splits)
      have "\<exists>k'<length (a # ls). lw' = Some ((?i0 # ?R) ! k') \<and> l' = Some ((a # ls) ! k')
              \<and> ?elig ((?i0 # ?R) ! k')
              \<and> (\<forall>j<k'. ?elig ((?i0 # ?R) ! j) \<longrightarrow> (?i0 # ?R) ! k' < (?i0 # ?R) ! j)
              \<and> (\<forall>w. lw = Some w \<longrightarrow> (?i0 # ?R) ! k' < w)"
        using k earlier by (intro exI[of _ "Suc k"]) simp
      then show ?thesis by blast
    qed
    have at0: "\<exists>w. lw' = Some w \<and> w \<le> ?i0" if "?elig ?i0"
    proof -
      from held[OF that] obtain w where w: "lw = Some w" "w \<le> ?i0" by blast
      with ih3 obtain w' where "lw' = Some w'" "w' \<le> w" by blast
      with w show ?thesis by auto
    qed
    have 2: "\<forall>j<length (a # ls). ?elig ((?i0 # ?R) ! j)
               \<longrightarrow> (\<exists>w. lw' = Some w \<and> w \<le> (?i0 # ?R) ! j)"
      using ih2 at0 by (auto simp: nth_Cons split: nat.splits)
    show ?thesis unfolding R using 1 2 ih3 by blast
  qed
qed

lemma lights_scan_start:
  assumes "lights_scan s car ls (sp, None, None) = (sp', Some wp, l')"
  shows "\<exists>k<length ls. resolved_stop_indices s ls sp ! k = wp \<and> l' = Some (ls ! k)
           \<and> car \<le> wp \<and> wp \<noteq> -1
           \<and> (\<forall>j<k. car \<le> resolved_stop_indices s ls sp ! j
                       \<and> resolved_stop_indices s ls sp ! j \<noteq> -1
                     \<longrightarrow> wp < resolved_stop_indices s ls sp ! j)
           \<and> (\<forall>j<length ls. car \<le> resolved_stop_indices s ls sp ! j
                       \<and> resolved_stop_indices s ls sp ! j \<noteq> -1
                     \<longrightarrow> wp \<le> resolved_stop_indices s ls sp ! j)"
proof -
  let ?R = "resolved_stop_indices s ls sp"
  from lights_scan_inv[OF assms]
  obtain k where k: "k < length ls" "Some wp = Some (?R ! k)" "l' = Some (ls ! k)"
      "car \<le> ?R ! k" "?R ! k \<noteq> -1"
      "\<forall>j<k. car \<le> ?R ! j \<and> ?R ! j \<noteq> -1 \<longrightarrow> ?R ! k < ?R ! j"
    and least: "\<forall>j<length ls. car \<le> ?R ! j \<and> ?R ! j \<noteq> -1
                  \<longrightarrow> (\<exists>w. Some wp = Some w \<and> w \<le> ?R ! j)"
    by blast
  from k(2) have wp: "?R ! k = wp" by simp
  from least have "\<forall>j<length ls. car \<le> ?R ! j \<and> ?R ! j \<noteq> -1 \<longrightarrow> wp \<le> ?R ! j"
    by simp
  with k wp show ?thesis by blast
qed


text \<open>The four ways through \<open>process_traffic_lights\<close>.\<close>

lemma process_traffic_lights_cases:
  "(pose s = None \<and> process_traffic_lights c e s = (Inr (-1, UNKNOWN c), s\<lparr>waypoints := None\<rparr>))
   \<or> (\<exists>p sp l. pose s = Some p
         \<and> lights_scan s (get_closest_waypoint s p) (lights s) (Pose0, None, None) = (sp, None, l)
         \<and> process_traffic_lights c e s = (Inl TypeError, s))
   \<or> (\<exists>p sp wp l. pose s = Some p
         \<and> lights_scan s (get_closest_waypoint s p) (lights s) (Pose0, None, None) = (sp, Some wp, Some l)
         \<and> \<not> wp - get_closest_waypoint s p < 100
         \<and> process_traffic_lights c e s = (Inr (-1, UNKNOWN c), s\<lparr>waypoints := None\<rparr>))
   \<or> (\<exists>p sp wp l. pose s = Some p
         \<and> lights_scan s (get_closest_waypoint s p) (lights s) (Pose0, None, None) = (sp, Some wp, Some l)
         \<and> wp - get_closest_waypoint s p < 100
         \<and> process_traffic_lights c e s =
              (case get_light_state e s l of
                 (Inl err, s') \<Rightarrow> (Inl err, s')
               | (Inr st, s') \<Rightarrow> (Inr (wp, st), s')))"
proof (cases "pose s")
  case None
  then show ?thesis by (simp add: process_traffic_lights_def)
next
  case (Some p)
  obtain sp lw l where scan:
    "lights_scan s (get_closest_waypoint s p) (lights s) (Pose0, None, None) = (sp, lw, l)"
    by (cases "lights_scan s (get_closest_waypoint s p) (lights s) (Pose0, None, None)") auto
  show ?thesis
  proof (cases lw)
    case None
    with Some scan show ?thesis by (simp add: process_traffic_lights_def)
  next
    case (Some wp)
    from lights_scan_start[OF scan[unfolded Some]] obtain l0 where l: "l = Some l0" by blast
    show ?thesis
      using \<open>pose s = Some p\<close> scan Some l
      by (cases "wp - get_closest_waypoint s p < 100") (simp_all add: process_traffic_lights_def)
  qed
qed

lemma no_candidate_raises:
  assumes "pose s = Some p"
    and "\<forall>i\<in>set (resolved_stop_indices s (lights s) Pose0).
           \<not> (get_closest_waypoint s p \<le> i \<and> i \<noteq> -1)"
  shows "process_traffic_lights c e s = (Inl TypeError, s)"
proof -
  from process_traffic_lights_cases[of s c e] assms(1)
  consider (none) sp l where
      "lights_scan s (get_closest_waypoint s p) (lights s) (Pose0, None, None) = (sp, None, l)"
      "process_traffic_lights c e s = (Inl TypeError, s)"
    | (some) sp wp l where
      "lights_scan s (get_closest_waypoint s p) (lights s) (Pose0, None, None) = (sp, Some wp, Some l)"
    by auto
  then show ?thesis
  proof cases
    case none
    then show ?thesis by simp
  next
    case some
    from lights_scan_start[OF some] obtain k where k: "k < length (lights s)"
      "resolved_stop_indices s (lights s) Pose0 ! k = wp"
      "get_closest_waypoint s p \<le> wp" "wp \<noteq> -1"
      by blast
    from k(1,2) have "wp \<in> set (resolved_stop_indices s (lights s) Pose0)"
      using nth_mem[of k "resolved_stop_indices s (lights s) Pose0"]
      by (simp add: length_resolved_stop_indices)
    with assms(2) k(3,4) show ?thesis by blast
  qed
qed

text \<open>
  C6: when \<open>process_traffic_lights\<close> returns a stop index other than \<open>-1\<close>, a pose is
  available and the index is the resolved stop index of the light at some position \<open>k\<close>
  of \<open>self.lights\<close>; it is at or ahead of the vehicle's own waypoint index; no light has
  a smaller resolved index that is at or ahead of the vehicle and not \<open>-1\<close>, wherever
  the lights lie geometrically; every such candidate before position \<open>k\<close> has a strictly
  larger resolved index; and the colour and the state returned are those of
  \<open>get_light_state\<close> on that light.
\<close>

theorem light_associator_nearest_ahead:
  assumes "process_traffic_lights c e s = (Inr (wp, st), s')" and "wp \<noteq> -1"
  shows "\<exists>p k. pose s = Some p \<and> k < length (lights s)
           \<and> resolved_stop_indices s (lights s) Pose0 ! k = wp
           \<and> get_closest_waypoint s p \<le> wp
           \<and> (\<forall>j<length (lights s).
                 get_closest_waypoint s p \<le> resolved_stop_indices s (lights s) Pose0 ! j
                   \<and> resolved_stop_indices s (lights s) Pose0 ! j \<noteq> -1
                 \<longrightarrow> wp \<le> resolved_stop_indices s (lights s) Pose0 ! j)
           \<and> (\<forall>j<k.
                 get_closest_waypoint s p \<le> resolved_stop_indices s (lights s) Pose0 ! j
                   \<and> resolved_stop_indices s (lights s) Pose0 ! j \<noteq> -1
                 \<longrightarrow> wp < resolved_stop_indices s (lights s) Pose0 ! j)
           \<and> get_light_state e s (lights s ! k) = (Inr st, s')"
proof -
  from process_traffic_lights_cases[of s c e] assms
  obtain p sp wp0 l where p: "pose s = Some p"
    and scan: "lights_scan s (get_closest_waypoint s p) (lights s) (Pose0, None, None)
                 = (sp, Some wp0, Some l)"
    and res: "process_traffic_lights c e s =
              (case get_light_state e s l of
                 (Inl err, s') \<Rightarrow> (Inl err, s')
               | (Inr st, s') \<Rightarrow> (Inr (wp0, st), s'))"
    by auto
  from res assms(1) have same: "wp0 = wp" and seen: "get_light_state e s l = (Inr st, s')"
    by (auto split: prod.splits sum.splits)
  from lights_scan_start[OF scan] obtain k where k: "k < length (lights s)"
    "resolved_stop_indices s (lights s) Pose0 ! k = wp0" "Some l = Some (lights s ! k)"
    "get_closest_waypoint s p \<le> wp0"
    "\<forall>j<k. get_closest_waypoint s p \<le> resolved_stop_indices s (lights s) Pose0 ! j
              \<and> resolved_stop_indices s (lights s) Pose0 ! j \<noteq> -1
            \<longrightarrow> wp0 < resolved_stop_indices s (lights s) Pose0 ! j"
    "\<forall>j<length (lights s). get_closest_waypoint s p \<le> resolved_stop_indices s (lights s) Pose0 ! j
              \<and> resolved_stop_indices s (lights s) Pose0 ! j \<noteq> -1
            \<longrightarrow> wp0 \<le> resolved_stop_indices s (lights s) Pose0 ! j"
    by blast
  from k(3) have "l = lights s ! k" by simp
  with seen have "get_light_state e s (lights s ! k) = (Inr st, s')" by simp
  with p k same show ?thesis by blast
qed

text \<open>
  In the scene with two lights the resolved indices are \<open>[4, 2]\<close> and the vehicle is at
  index 1: the call returns index 2, the smaller of the two candidates, with the colour
  of the second light (red), although the first light comes first in the list.
\<close>

theorem light_associator_nearest_ahead_witness:
  "process_traffic_lights styx_msgs window_env two_detector = (Inr (2, 0), two_detector)
   \<and> resolved_stop_indices two_detector (lights two_detector) Pose0 = [4, 2]
   \<and> get_light_state window_env two_detector (lights two_detector ! 0) = (Inr 2, two_detector)
   \<and> (\<exists>p k. pose two_detector = Some p \<and> k < length (lights two_detector)
         \<and> [4, 2] ! k = (2::int)
         \<and> get_closest_waypoint two_detector p \<le> 2
         \<and> (\<forall>j<length (lights two_detector).
               get_closest_waypoint two_detector p \<le> [4, 2] ! j \<and> [4, 2] ! j \<noteq> (-1::int)
               \<longrightarrow> (2::int) \<le> [4, 2] ! j)
         \<and> (\<forall>j<k.
               get_closest_waypoint two_detector p \<le> [4, 2] ! j \<and> [4, 2] ! j \<noteq> (-1::int)
               \<longrightarrow> (2::int) < [4, 2] ! j)
         \<and> get_light_state window_env two_detector (lights two_detector ! k)
             = (Inr 0, two_detector))"
proof -
  have r: "process_traffic_lights styx_msgs window_env two_detector = (Inr (2, 0), two_detector)"
    by (simp add: two_detector_def window_env_def demo_defs run_defs)
  have n: "(2::int) \<noteq> -1" by simp
  have R: "resolved_stop_indices two_detector (lights two_detector) Pose0 = [4, 2]"
    by (simp add: two_detector_def demo_defs run_defs)
  have g: "get_light_state window_env two_detector (lights two_detector ! 0) = (Inr 2, two_detector)"
    by (simp add: two_detector_def window_env_def demo_defs run_defs)
  show ?thesis
    using light_associator_nearest_ahead[OF r n] r g unfolding R by simp
qed




text \<open>
  C2: with a pose and an empty light list, with the path unset or empty, or with the
  only light's stop index behind the vehicle, \<open>process_traffic_lights\<close> raises
  \<open>TypeError\<close> at the visibility gate, and the image handler with it.
\<close>

theorem no_candidate_raises_TypeError:
  "process_traffic_lights styx_msgs demo_env (demo_detector\<lparr>lights := []\<rparr>)
     = (Inl TypeError, demo_detector\<lparr>lights := []\<rparr>)
   \<and> process_traffic_lights styx_msgs demo_env (demo_detector\<lparr>waypoints := None\<rparr>)
     = (Inl TypeError, demo_detector\<lparr>waypoints := None\<rparr>)
   \<and> process_traffic_lights styx_msgs demo_env (demo_detector\<lparr>waypoints := Some []\<rparr>)
     = (Inl TypeError, demo_detector\<lparr>waypoints := Some []\<rparr>)
   \<and> process_traffic_lights styx_msgs demo_env (demo_detector\<lparr>pose := Some (pt 5 0 0)\<rparr>)
     = (Inl TypeError, demo_detector\<lparr>pose := Some (pt 5 0 0)\<rparr>)
   \<and> fst (image_cb styx_msgs demo_env (demo_detector\<lparr>lights := []\<rparr>) demo_image)
     = Inl TypeError"
  by (simp add: demo_defs run_defs)

section \<open>Stop line of a light\<close>

lemma stop_line_scan_inv:
  "\<exists>m' sp'. stop_line_scan lp ls (m, sp) = (m', sp') \<and>
     ((m' = m \<and> sp' = sp \<and> (\<forall>i<length ls. m \<le> stop_sq_dist (ls ! i) lp))
      \<or> (\<exists>j<length ls. m' = stop_sq_dist (ls ! j) lp
            \<and> sp' = sp\<lparr>pos_x := fst (ls ! j), pos_y := snd (ls ! j)\<rparr>
            \<and> stop_sq_dist (ls ! j) lp < m
            \<and> (\<forall>i<length ls. stop_sq_dist (ls ! j) lp \<le> stop_sq_dist (ls ! i) lp)
            \<and> (\<forall>i<j. stop_sq_dist (ls ! j) lp < stop_sq_dist (ls ! i) lp)))"
proof (induction ls arbitrary: m sp)
  case Nil
  then show ?case by simp
next
  case (Cons a ls)
  let ?d = "stop_sq_dist a lp"
  show ?case
  proof (cases "?d < m")
    case True
    let ?sp1 = "sp\<lparr>pos_x := fst a, pos_y := snd a\<rparr>"
    have step: "stop_line_scan lp (a # ls) (m, sp) = stop_line_scan lp ls (?d, ?sp1)"
      using True by simp
    from Cons.IH[of ?d ?sp1] obtain m' sp' where
      eq: "stop_line_scan lp ls (?d, ?sp1) = (m', sp')"
      and alt: "(m' = ?d \<and> sp' = ?sp1 \<and> (\<forall>i<length ls. ?d \<le> stop_sq_dist (ls ! i) lp))
      \<or> (\<exists>j<length ls. m' = stop_sq_dist (ls ! j) lp
            \<and> sp' = ?sp1\<lparr>pos_x := fst (ls ! j), pos_y := snd (ls ! j)\<rparr>
            \<and> stop_sq_dist (ls ! j) lp < ?d
            \<and> (\<forall>i<length ls. stop_sq_dist (ls ! j) lp \<le> stop_sq_dist (ls ! i) lp)
            \<and> (\<forall>i<j. stop_sq_dist (ls ! j) lp < stop_sq_dist (ls ! i) lp))"
      by blast
    from alt show ?thesis
    proof
      assume a: "m' = ?d \<and> sp' = ?sp1 \<and> (\<forall>i<length ls. ?d \<le> stop_sq_dist (ls ! i) lp)"
      have "\<forall>i<length (a # ls). stop_sq_dist ((a # ls) ! 0) lp \<le> stop_sq_dist ((a # ls) ! i) lp"
        using a by (auto simp: nth_Cons split: nat.splits)
      with a True step eq show ?thesis
        by (intro exI[of _ m'] exI[of _ sp']) (auto intro!: exI[of _ 0])
    next
      assume "\<exists>j<length ls. m' = stop_sq_dist (ls ! j) lp
            \<and> sp' = ?sp1\<lparr>pos_x := fst (ls ! j), pos_y := snd (ls ! j)\<rparr>
            \<and> stop_sq_dist (ls ! j) lp < ?d
            \<and> (\<forall>i<length ls. stop_sq_dist (ls ! j) lp \<le> stop_sq_dist (ls ! i) lp)
            \<and> (\<forall>i<j. stop_sq_dist (ls ! j) lp < stop_sq_dist (ls ! i) lp)"
      then obtain j where j: "j < length ls" "m' = stop_sq_dist (ls ! j) lp"
        "sp' = sp\<lparr>pos_x := fst (ls ! j), pos_y := snd (ls ! j)\<rparr>"
        "stop_sq_dist (ls ! j) lp < ?d"
        "\<forall>i<length ls. stop_sq_dist (ls ! j) lp \<le> stop_sq_dist (ls ! i) lp"
        "\<forall>i<j. stop_sq_dist (ls ! j) lp < stop_sq_dist (ls ! i) lp" by auto
      have 1: "\<forall>i<length (a # ls). stop_sq_dist ((a # ls) ! Suc j) lp \<le> stop_sq_dist ((a # ls) ! i) lp"
        using j by (auto simp: nth_Cons split: nat.splits)
      have 2: "\<forall>i<Suc j. stop_sq_dist ((a # ls) ! Suc j) lp < stop_sq_dist ((a # ls) ! i) lp"
        using j by (auto simp: nth_Cons split: nat.splits)
      have 3: "stop_sq_dist ((a # ls) ! Suc j) lp < m" using j True by simp
      show ?thesis
        using step eq j(1,2,3) 1 2 3
        by (intro exI[of _ m'] exI[of _ sp']) (auto intro!: exI[of _ "Suc j"])
    qed
  next
    case False
    have step: "stop_line_scan lp (a # ls) (m, sp) = stop_line_scan lp ls (m, sp)"
      using False by simp
    from Cons.IH[of m sp] obtain m' sp' where
      eq: "stop_line_scan lp ls (m, sp) = (m', sp')"
      and alt: "(m' = m \<and> sp' = sp \<and> (\<forall>i<length ls. m \<le> stop_sq_dist (ls ! i) lp))
      \<or> (\<exists>j<length ls. m' = stop_sq_dist (ls ! j) lp
            \<and> sp' = sp\<lparr>pos_x := fst (ls ! j), pos_y := snd (ls ! j)\<rparr>
            \<and> stop_sq_dist (ls ! j) lp < m
            \<and> (\<forall>i<length ls. stop_sq_dist (ls ! j) lp \<le> stop_sq_dist (ls ! i) lp)
            \<and> (\<forall>i<j. stop_sq_dist (ls ! j) lp < stop_sq_dist (ls ! i) lp))"
      by blast
    from alt show ?thesis
    proof
      assume a: "m' = m \<and> sp' = sp \<and> (\<forall>i<length ls. m \<le> stop_sq_dist (ls ! i) lp)"
      have "\<forall>i<length (a # ls). m \<le> stop_sq_dist ((a # ls) ! i) lp"
        using a False by (auto simp: nth_Cons split: nat.splits)
      with a step eq show ?thesis by auto
    next
      assume "\<exists>j<length ls. m' = stop_sq_dist (ls ! j) lp
            \<and> sp' = sp\<lparr>pos_x := fst (ls ! j), pos_y := snd (ls ! j)\<rparr>
            \<and> stop_sq_dist (ls ! j) lp < m
            \<and> (\<forall>i<length ls. stop_sq_dist (ls ! j) lp \<le> stop_sq_dist (ls ! i) lp)
            \<and> (\<forall>i<j. stop_sq_dist (ls ! j) lp < stop_sq_dist (ls ! i) lp)"
      then obtain j where j: "j < length ls" "m' = stop_sq_dist (ls ! j) lp"
        "sp' = sp\<lparr>pos_x := fst (ls ! j), pos_y := snd (ls ! j)\<rparr>"
        "stop_sq_dist (ls ! j) lp < m"
        "\<forall>i<length ls. stop_sq_dist (ls ! j) lp \<le> stop_sq_dist (ls ! i) lp"
        "\<forall>i<j. stop_sq_dist (ls ! j) lp < stop_sq_dist (ls ! i) lp" by auto
      have 1: "\<forall>i<length (a # ls). stop_sq_dist ((a # ls) ! Suc j) lp \<le> stop_sq_dist ((a # ls) ! i) lp"
        using j False by (auto simp: nth_Cons split: nat.splits)
      have 2: "\<forall>i<Suc j. stop_sq_dist ((a # ls) ! Suc j) lp < stop_sq_dist ((a # ls) ! i) lp"
        using j False by (auto simp: nth_Cons split: nat.splits)
      show ?thesis
        using step eq j(1,2,3,4) 1 2
        by (intro exI[of _ m'] exI[of _ sp']) (auto intro!: exI[of _ "Suc j"])
    qed
  qed
qed

lemma stop_pose_for_in_range:
  assumes "\<exists>i<length (stop_line_positions (config s)).
             stop_sq_dist (stop_line_positions (config s) ! i) (light_position light_i) < 1000000"
  shows "\<exists>j<length (stop_line_positions (config s)).
           stop_pose_for s light_i sp
             = sp\<lparr>pos_x := fst (stop_line_positions (config s) ! j),
                  pos_y := snd (stop_line_positions (config s) ! j)\<rparr>
           \<and> (\<forall>i<length (stop_line_positions (config s)).
                 stop_sq_dist (stop_line_positions (config s) ! j) (light_position light_i)
                   \<le> stop_sq_dist (stop_line_positions (config s) ! i) (light_position light_i))
           \<and> (\<forall>i<j. stop_sq_dist (stop_line_positions (config s) ! j) (light_position light_i)
                   < stop_sq_dist (stop_line_positions (config s) ! i) (light_position light_i))"
proof -
  let ?L = "stop_line_positions (config s)"
  let ?lp = "light_position light_i"
  from stop_line_scan_inv[of ?lp ?L 1000000 sp] obtain m' sp' where
    eq: "stop_line_scan ?lp ?L (1000000, sp) = (m', sp')"
    and alt: "(m' = 1000000 \<and> sp' = sp \<and> (\<forall>i<length ?L. 1000000 \<le> stop_sq_dist (?L ! i) ?lp))
      \<or> (\<exists>j<length ?L. m' = stop_sq_dist (?L ! j) ?lp
            \<and> sp' = sp\<lparr>pos_x := fst (?L ! j), pos_y := snd (?L ! j)\<rparr>
            \<and> stop_sq_dist (?L ! j) ?lp < 1000000
            \<and> (\<forall>i<length ?L. stop_sq_dist (?L ! j) ?lp \<le> stop_sq_dist (?L ! i) ?lp)
            \<and> (\<forall>i<j. stop_sq_dist (?L ! j) ?lp < stop_sq_dist (?L ! i) ?lp))"
    by blast
  from assms have "\<not> (\<forall>i<length ?L. 1000000 \<le> stop_sq_dist (?L ! i) ?lp)"
    by (auto simp: not_le)
  with alt obtain j where j: "j < length ?L"
    "sp' = sp\<lparr>pos_x := fst (?L ! j), pos_y := snd (?L ! j)\<rparr>"
    "\<forall>i<length ?L. stop_sq_dist (?L ! j) ?lp \<le> stop_sq_dist (?L ! i) ?lp"
    "\<forall>i<j. stop_sq_dist (?L ! j) ?lp < stop_sq_dist (?L ! i) ?lp"
    by blast
  have "stop_pose_for s light_i sp = sp'" by (simp add: stop_pose_for_def eq)
  with j show ?thesis by blast
qed

lemma stop_pose_for_out_of_range:
  assumes "\<forall>i<length (stop_line_positions (config s)).
             1000000 \<le> stop_sq_dist (stop_line_positions (config s) ! i) (light_position light_i)"
  shows "stop_pose_for s light_i sp = sp"
proof -
  let ?L = "stop_line_positions (config s)"
  let ?lp = "light_position light_i"
  from stop_line_scan_inv[of ?lp ?L 1000000 sp] obtain m' sp' where
    eq: "stop_line_scan ?lp ?L (1000000, sp) = (m', sp')"
    and alt: "(m' = 1000000 \<and> sp' = sp \<and> (\<forall>i<length ?L. 1000000 \<le> stop_sq_dist (?L ! i) ?lp))
      \<or> (\<exists>j<length ?L. stop_sq_dist (?L ! j) ?lp < 1000000)"
    by blast
  from assms have "\<not> (\<exists>j<length ?L. stop_sq_dist (?L ! j) ?lp < 1000000)"
    by (auto simp: not_less)
  with alt have "sp' = sp" by blast
  then show ?thesis by (simp add: stop_pose_for_def eq)
qed

text \<open>
  C9: the only stop line is at \<open>(3, 0)\<close> and the light at \<open>(2000, 0)\<close>, farther than the
  initial \<open>min_dist = 1000000\<close> allows: \<open>stop_pose\<close> keeps what it held before, the origin
  of a fresh \<open>Pose()\<close> or any earlier content, and a far light after a near one resolves
  to the near light's stop index.
\<close>

theorem stop_line_beyond_initial_minimum:
  "stop_line_positions (config demo_detector) = [(3, 0)]
   \<and> stop_pose_for demo_detector \<lparr>light_position = pt 2000 0 5, light_state = 0\<rparr> Pose0
       = pt 0 0 0
   \<and> stop_pose_for demo_detector \<lparr>light_position = pt 2000 0 5, light_state = 0\<rparr> (pt 7 7 0)
       = pt 7 7 0
   \<and> resolved_stop_indices (demo_detector\<lparr>config := demo_config\<lparr>stop_line_positions := [(3, 0), (5, 0)]\<rparr>\<rparr>)
        [\<lparr>light_position = pt 2 0 5, light_state = 0\<rparr>,
         \<lparr>light_position = pt 2000 0 5, light_state = 0\<rparr>] Pose0 = [3, 3]"
  by (simp add: demo_defs run_defs)

section \<open>Projection\<close>

lemma failed_lookup_raises:
  "lookupTransform e = None \<Longrightarrow> project_to_image_plane e s q = Inl UnboundLocalError"
  by (simp add: project_to_image_plane_def)

text \<open>
  C8 (as the code has it): when the lookup succeeds and the transformed point has a depth
  other than zero, positive or negative, the projection is the pair of truncated pinhole
  coordinates \<open>int(fx * Xc / Zc + cx)\<close>, \<open>int(fy * Yc / Zc + cy)\<close>.
\<close>

theorem project_pinhole:
  assumes "lookupTransform e = Some (trn, rot)"
    and "camera_point (fromTranslationRotation e trn rot) q = (Xc, Yc, Zc)"
    and "Zc \<noteq> 0"
  shows "project_to_image_plane e s q =
           Inr (py_int (focal_length_x (config s) * Xc / Zc
                          + real_of_int (image_width (config s) div 2)),
                py_int (focal_length_y (config s) * Yc / Zc
                          + real_of_int (image_height (config s) div 2)))"
  using assms
  by (simp add: project_to_image_plane_def int_of_quotient_def add_divide_distrib)

theorem project_pinhole_witness:
  "lookupTransform demo_env = Some ((0, 0, 0), (0, 0, 0, 1))
   \<and> camera_point (fromTranslationRotation demo_env (0, 0, 0) (0, 0, 0, 1)) (pt 4 0 (-5)) = (4, 0, -5)
   \<and> project_to_image_plane demo_env demo_detector (pt 4 0 (-5)) = Inr (398, 300)"
proof -
  have a: "lookupTransform demo_env = Some ((0, 0, 0), (0, 0, 0, 1))"
    by (simp add: demo_env_def)
  have b: "camera_point (fromTranslationRotation demo_env (0, 0, 0) (0, 0, 0, 1)) (pt 4 0 (-5)) = (4, 0, -5)"
    by (simp add: demo_env_def camera_point_def row_apply_def pt_def)
  have z: "(-5::real) \<noteq> 0" by simp
  show ?thesis
    using project_pinhole[OF a b z, of demo_detector] a b
    by (simp add: demo_defs py_int_def)
qed

text \<open>
  A point at depth \<open>-5\<close> projects to the pixel \<open>(398, 300)\<close>, with no failure; at depth
  \<open>0\<close> the conversion of the infinite quotient raises \<open>OverflowError\<close>.
\<close>

theorem project_behind_camera_counterexample:
  "snd (snd (camera_point (fromTranslationRotation demo_env (0, 0, 0) (0, 0, 0, 1)) (pt 4 0 (-5)))) = -5
   \<and> project_to_image_plane demo_env demo_detector (pt 4 0 (-5)) = Inr (398, 300)
   \<and> project_to_image_plane demo_env demo_detector (pt 4 0 0) = Inl OverflowError"
  by (simp add: demo_defs run_defs)

text \<open>
  C7: when the transform lookup fails, \<open>project_to_image_plane\<close> raises
  \<open>UnboundLocalError\<close>, and so does the image handler: nothing is published and the
  debounce is not run.
\<close>

theorem failed_lookup_raises_UnboundLocalError:
  "project_to_image_plane (demo_env\<lparr>lookupTransform := None\<rparr>) demo_detector (pt 4 0 5)
     = Inl UnboundLocalError
   \<and> image_cb styx_msgs (demo_env\<lparr>lookupTransform := None\<rparr>) demo_detector demo_image
     = (Inl UnboundLocalError,
        demo_detector\<lparr>has_image := Some True, camera_image := Some demo_image\<rparr>)"
  by (simp add: demo_defs run_defs)

section \<open>Classification without a frame\<close>

text \<open>
  The image handler assigns \<open>has_image = True\<close> before anything else, so a pass does not
  depend on what the attribute held before: the branch of \<open>get_light_state\<close> for a
  missing frame is not taken from \<open>image_cb\<close>.
\<close>

lemma image_cb_ignores_has_image:
  "image_cb c e (s\<lparr>has_image := h\<rparr>) msg = image_cb c e s msg"
  by (simp add: image_cb_def)




end
